theory Spec2Isabelle
  imports Main "HOL-Library.Word"
begin

unbundle bit_operations_syntax

section \<open>Python values used by gen_icon.py\<close>

text \<open>
  The script \<^verbatim>\<open>src-tauri/icons/gen_icon.py\<close> builds two byte strings and writes each to a
  file. Python \<^verbatim>\<open>bytes\<close> are lists of 8-bit words, Python integers are unbounded
  (\<^typ>\<open>int\<close>), and every exception the script can raise is a value of \<open>error\<close>.
\<close>

type_synonym byte = "8 word"
type_synonym bytes = "byte list"

datatype error = StructError | OSError

text \<open>\<^verbatim>\<open>b * n\<close> on bytes: \<open>n\<close> copies, none when \<open>n \<le> 0\<close>.\<close>

definition bytes_mul :: "bytes \<Rightarrow> int \<Rightarrow> bytes" where
  "bytes_mul b n = concat (replicate (nat n) b)"

text \<open>A bytes literal with printable characters, such as \<^verbatim>\<open>b'IHDR'\<close>.\<close>

definition b_ascii :: "string \<Rightarrow> bytes" where
  "b_ascii s = map of_char s"

subsection \<open>struct.pack\<close>

text \<open>
  The format strings of the script use the byte orders \<^verbatim>\<open><\<close> and \<^verbatim>\<open>>\<close> (standard sizes,
  no padding) and the codes \<^verbatim>\<open>B\<close>, \<^verbatim>\<open>H\<close>, \<^verbatim>\<open>I\<close> (unsigned, 1, 2 and 4 bytes) and
  \<^verbatim>\<open>i\<close> (signed, 4 bytes). A value outside the range of its code, or a number of
  arguments different from the number of codes, raises \<^verbatim>\<open>struct.error\<close>.
\<close>

datatype byteorder = LittleEndian | BigEndian

datatype fmt = Fmt_B | Fmt_H | Fmt_I | Fmt_i

fun fmt_size :: "fmt \<Rightarrow> nat" where
  "fmt_size Fmt_B = 1"
| "fmt_size Fmt_H = 2"
| "fmt_size Fmt_I = 4"
| "fmt_size Fmt_i = 4"

fun fmt_min :: "fmt \<Rightarrow> int" where
  "fmt_min Fmt_B = 0"
| "fmt_min Fmt_H = 0"
| "fmt_min Fmt_I = 0"
| "fmt_min Fmt_i = - (2 ^ 31)"

fun fmt_max :: "fmt \<Rightarrow> int" where
  "fmt_max Fmt_B = 2 ^ 8 - 1"
| "fmt_max Fmt_H = 2 ^ 16 - 1"
| "fmt_max Fmt_I = 2 ^ 32 - 1"
| "fmt_max Fmt_i = 2 ^ 31 - 1"

text \<open>The \<open>n\<close> low bytes of \<open>v\<close>, least significant first (two's complement when \<open>v < 0\<close>).\<close>

fun le_bytes :: "nat \<Rightarrow> int \<Rightarrow> bytes" where
  "le_bytes 0 v = []"
| "le_bytes (Suc n) v = word_of_int v # le_bytes n (v div 256)"

definition pack_field :: "byteorder \<Rightarrow> fmt \<Rightarrow> int \<Rightarrow> error + bytes" where
  "pack_field bo c v =
     (if v < fmt_min c \<or> fmt_max c < v then Inl StructError
      else Inr (case bo of
                  LittleEndian \<Rightarrow> le_bytes (fmt_size c) v
                | BigEndian \<Rightarrow> rev (le_bytes (fmt_size c) v)))"

fun struct_pack :: "byteorder \<Rightarrow> fmt list \<Rightarrow> int list \<Rightarrow> error + bytes" where
  "struct_pack bo [] [] = Inr []"
| "struct_pack bo (c # cs) (v # vs) =
     (case pack_field bo c v of
        Inl e \<Rightarrow> Inl e
      | Inr b \<Rightarrow> (case struct_pack bo cs vs of
                    Inl e \<Rightarrow> Inl e
                  | Inr bs \<Rightarrow> Inr (b @ bs)))"
| "struct_pack bo _ _ = Inl StructError"

section \<open>The 16x16 icon.ico\<close>

definition w :: int where "w = 16"
definition h :: int where "h = 16"

text \<open>\<^verbatim>\<open>info = struct.pack('<IiiHHIIiiII', 40, w, h * 2, 1, 32, 0, 0, 0, 0, 0, 0)\<close>\<close>

definition info :: "error + bytes" where
  "info = struct_pack LittleEndian
     [Fmt_I, Fmt_i, Fmt_i, Fmt_H, Fmt_H, Fmt_I, Fmt_I, Fmt_i, Fmt_i, Fmt_I, Fmt_I]
     [40, w, h * 2, 1, 32, 0, 0, 0, 0, 0, 0]"

text \<open>\<^verbatim>\<open>px = b'\xf6\x82\x3b\xff' * w * h\<close>\<close>

definition px :: bytes where
  "px = bytes_mul (bytes_mul [0xf6, 0x82, 0x3b, 0xff] w) h"

text \<open>\<^verbatim>\<open>mask = b'\x00' * h * 4\<close>\<close>

definition mask_bytes :: bytes where
  "mask_bytes = bytes_mul (bytes_mul [0x00] h) 4"

text \<open>\<^verbatim>\<open>img = info + px + mask\<close>\<close>

definition img :: "error + bytes" where
  "img = (case info of Inl e \<Rightarrow> Inl e | Inr i \<Rightarrow> Inr (i @ px @ mask_bytes))"

text \<open>\<^verbatim>\<open>hdr = struct.pack('<HHH', 0, 1, 1)\<close>\<close>

definition hdr :: "error + bytes" where
  "hdr = struct_pack LittleEndian [Fmt_H, Fmt_H, Fmt_H] [0, 1, 1]"

text \<open>\<^verbatim>\<open>d = struct.pack('<BBBBHHII', w, h, 0, 0, 1, 32, len(img), 22)\<close>\<close>

definition d :: "error + bytes" where
  "d = (case img of
          Inl e \<Rightarrow> Inl e
        | Inr im \<Rightarrow> struct_pack LittleEndian
            [Fmt_B, Fmt_B, Fmt_B, Fmt_B, Fmt_H, Fmt_H, Fmt_I, Fmt_I]
            [w, h, 0, 0, 1, 32, int (length im), 22])"

text \<open>The argument of the single write to icon.ico: \<^verbatim>\<open>hdr + d + img\<close>.\<close>

definition ico_data :: "error + bytes" where
  "ico_data =
     (case hdr of Inl e \<Rightarrow> Inl e | Inr hd' \<Rightarrow>
     (case d of Inl e \<Rightarrow> Inl e | Inr d' \<Rightarrow>
     (case img of Inl e \<Rightarrow> Inl e | Inr im \<Rightarrow> Inr (hd' @ d' @ im))))"

section \<open>The zlib functions the script calls\<close>

text \<open>
  \<^verbatim>\<open>zlib.crc32\<close> is the CRC-32 of ISO 3309 (reflected polynomial \<open>0xEDB88320\<close>, initial
  value and final complement \<open>0xFFFFFFFF\<close>), computed here bit by bit; Python returns it
  as a non-negative integer. \<^verbatim>\<open>zlib.compress\<close> belongs to the zlib library, not to this
  repository: the script is modelled for an arbitrary compressor, passed as a parameter,
  a function from the raw bytes to the compressed bytes. A failure inside the compressor
  is outside the model.
\<close>

definition crc32_bit :: "32 word \<Rightarrow> 32 word" where
  "crc32_bit c = (if bit c 0 then drop_bit 1 c XOR 0xEDB88320 else drop_bit 1 c)"

definition crc32_byte :: "32 word \<Rightarrow> byte \<Rightarrow> 32 word" where
  "crc32_byte c b = (crc32_bit ^^ 8) (c XOR ucast b)"

definition crc32_word :: "bytes \<Rightarrow> 32 word" where
  "crc32_word data = NOT (foldl crc32_byte 0xFFFFFFFF data)"

definition zlib_crc32 :: "bytes \<Rightarrow> int" where
  "zlib_crc32 data = uint (crc32_word data)"

section \<open>The 32x32 icon.png\<close>

definition w2 :: int where "w2 = 32"
definition h2 :: int where "h2 = 32"

text \<open>
  \<^verbatim>\<open>raw = b''\<close>, then \<^verbatim>\<open>for _ in range(h2): raw += b'\x00' + b'\x3b\x82\xf6\xff' * w2\<close>:
  the loop, with the number of iterations left and the buffer built so far.
\<close>

fun raw_loop :: "nat \<Rightarrow> bytes \<Rightarrow> bytes" where
  "raw_loop 0 acc = acc"
| "raw_loop (Suc n) acc = raw_loop n (acc @ ([0x00] @ bytes_mul [0x3b, 0x82, 0xf6, 0xff] w2))"

definition raw :: bytes where
  "raw = raw_loop (nat h2) []"

text \<open>\<^verbatim>\<open>ihdr_data = struct.pack('>IIBBBBB', w2, h2, 8, 6, 0, 0, 0)\<close>\<close>

definition ihdr_data :: "error + bytes" where
  "ihdr_data = struct_pack BigEndian
     [Fmt_I, Fmt_I, Fmt_B, Fmt_B, Fmt_B, Fmt_B, Fmt_B] [w2, h2, 8, 6, 0, 0, 0]"

text \<open>
  \<^verbatim>\<open>crc = zlib.crc32(chunk_type + data) & 0xffffffff\<close> and
  \<^verbatim>\<open>return struct.pack('>I', len(data)) + chunk_type + data + struct.pack('>I', crc)\<close>
\<close>

definition png_chunk :: "bytes \<Rightarrow> bytes \<Rightarrow> error + bytes" where
  "png_chunk chunk_type data =
     (let crc = zlib_crc32 (chunk_type @ data) AND 0xffffffff in
      (case struct_pack BigEndian [Fmt_I] [int (length data)] of
         Inl e \<Rightarrow> Inl e
       | Inr len_b \<Rightarrow>
           (case struct_pack BigEndian [Fmt_I] [crc] of
              Inl e \<Rightarrow> Inl e
            | Inr crc_b \<Rightarrow> Inr (len_b @ chunk_type @ data @ crc_b))))"

text \<open>\<^verbatim>\<open>b'\x89PNG\r\n\x1a\n'\<close>\<close>

definition png_signature :: bytes where
  "png_signature = [0x89] @ b_ascii ''PNG'' @ [0x0d, 0x0a, 0x1a, 0x0a]"

section \<open>Running the script\<close>

text \<open>
  The script reads nothing but its own location. \<open>dir_path\<close> is the value of
  \<^verbatim>\<open>os.path.dirname(os.path.abspath(__file__))\<close>; \<open>writable\<close> says for which paths
  \<^verbatim>\<open>open(path, 'wb')\<close> succeeds (elsewhere it raises \<^verbatim>\<open>OSError\<close>). The world is
  the content of every file and the lines printed so far. A failure of a write after a
  successful open (a full disk) is outside the model.
\<close>

record env =
  dir_path :: string
  writable :: "string \<Rightarrow> bool"

record world =
  files :: "string \<Rightarrow> bytes option"
  stdout :: "string list"

datatype outcome = Finished world | Raised error world

text \<open>\<^verbatim>\<open>os.path.join(a, b)\<close> of posixpath, for two components.\<close>

definition os_path_join :: "string \<Rightarrow> string \<Rightarrow> string" where
  "os_path_join a b =
     (if b \<noteq> [] \<and> hd b = CHR ''/'' then b
      else if a = [] \<or> last a = CHR ''/'' then a @ b
      else a @ ''/'' @ b)"

definition ico_path :: "env \<Rightarrow> string" where
  "ico_path e = os_path_join (dir_path e) ''icon.ico''"

definition png_path :: "env \<Rightarrow> string" where
  "png_path e = os_path_join (dir_path e) ''icon.png''"

text \<open>\<^verbatim>\<open>open(path, 'wb')\<close> creates the file or truncates it; \<^verbatim>\<open>f.write\<close> appends.\<close>

definition open_wb :: "env \<Rightarrow> string \<Rightarrow> world \<Rightarrow> error + world" where
  "open_wb e path wd =
     (if writable e path then Inr (wd\<lparr>files := (files wd)(path \<mapsto> [])\<rparr>)
      else Inl OSError)"

definition f_write :: "string \<Rightarrow> bytes \<Rightarrow> world \<Rightarrow> world" where
  "f_write path bs wd =
     wd\<lparr>files := (files wd)(path \<mapsto>
           (case files wd path of None \<Rightarrow> bs | Some old \<Rightarrow> old @ bs))\<rparr>"

definition print_line :: "string \<Rightarrow> world \<Rightarrow> world" where
  "print_line s wd = wd\<lparr>stdout := stdout wd @ [s]\<rparr>"

text \<open>
  The statements of the script in order. Everything packed for icon.ico is computed
  before the file is opened; the three chunks of icon.png are each built just before
  they are written, so an exception in a later chunk leaves the earlier writes in the
  file.
\<close>

definition main :: "(bytes \<Rightarrow> bytes) \<Rightarrow> env \<Rightarrow> world \<Rightarrow> outcome" where
  "main zlib_compress e wd0 =
     (case ico_data of Inl err \<Rightarrow> Raised err wd0 | Inr ico \<Rightarrow>
     (case open_wb e (ico_path e) wd0 of Inl err \<Rightarrow> Raised err wd0 | Inr wd1 \<Rightarrow>
     (let wd2 = print_line (''Created '' @ ico_path e) (f_write (ico_path e) ico wd1) in
     (case ihdr_data of Inl err \<Rightarrow> Raised err wd2 | Inr ihdr \<Rightarrow>
     (case open_wb e (png_path e) wd2 of Inl err \<Rightarrow> Raised err wd2 | Inr wd3 \<Rightarrow>
     (let wd4 = f_write (png_path e) png_signature wd3 in
     (case png_chunk (b_ascii ''IHDR'') ihdr of Inl err \<Rightarrow> Raised err wd4 | Inr c1 \<Rightarrow>
     (let wd5 = f_write (png_path e) c1 wd4 in
     (case png_chunk (b_ascii ''IDAT'') (zlib_compress raw) of
        Inl err \<Rightarrow> Raised err wd5 | Inr c2 \<Rightarrow>
     (let wd6 = f_write (png_path e) c2 wd5 in
     (case png_chunk (b_ascii ''IEND'') [] of Inl err \<Rightarrow> Raised err wd6 | Inr c3 \<Rightarrow>
        Finished (print_line ''Done!''
          (print_line (''Created '' @ png_path e)
            (f_write (png_path e) c3 wd6))))))))))))))"

section \<open>Reading the outputs back\<close>

text \<open>
  The specification speaks of fields of the two file formats. These readers are not part
  of the script: they decode what it wrote, the way a consumer of the file would.
\<close>

definition bytes_at :: "nat \<Rightarrow> nat \<Rightarrow> 'a list \<Rightarrow> 'a list" where
  "bytes_at off n bs = take n (drop off bs)"

fun le_uint :: "bytes \<Rightarrow> nat" where
  "le_uint [] = 0"
| "le_uint (b # bs) = unat b + 256 * le_uint bs"

definition be_uint :: "bytes \<Rightarrow> nat" where
  "be_uint bs = le_uint (rev bs)"

text \<open>An unsigned field of \<open>n\<close> bytes at offset \<open>off\<close> of a packed value, if it is there.\<close>

definition read_le :: "nat \<Rightarrow> nat \<Rightarrow> error + bytes \<Rightarrow> nat option" where
  "read_le off n r =
     (case r of
        Inl e \<Rightarrow> None
      | Inr bs \<Rightarrow> if off + n \<le> length bs then Some (le_uint (bytes_at off n bs)) else None)"

definition read_be :: "nat \<Rightarrow> nat \<Rightarrow> error + bytes \<Rightarrow> nat option" where
  "read_be off n r =
     (case r of
        Inl e \<Rightarrow> None
      | Inr bs \<Rightarrow> if off + n \<le> length bs then Some (be_uint (bytes_at off n bs)) else None)"

definition read_bytes :: "nat \<Rightarrow> nat \<Rightarrow> error + bytes \<Rightarrow> bytes option" where
  "read_bytes off n r =
     (case r of
        Inl e \<Rightarrow> None
      | Inr bs \<Rightarrow> if off + n \<le> length bs then Some (bytes_at off n bs) else None)"

definition data_length :: "error + bytes \<Rightarrow> nat option" where
  "data_length r = (case r of Inl e \<Rightarrow> None | Inr bs \<Rightarrow> Some (length bs))"

text \<open>
  Pixel \<open>i\<close> of the ICO pixel array, and the pixel in column \<open>c\<close> of scanline \<open>r\<close> of the
  PNG buffer (each scanline is one filter byte and 32 pixels of 4 bytes).
\<close>

definition ico_pixel :: "nat \<Rightarrow> bytes" where
  "ico_pixel i = bytes_at (4 * i) 4 px"

definition png_pixel :: "nat \<Rightarrow> nat \<Rightarrow> bytes" where
  "png_pixel r c = bytes_at (129 * r + (1 + 4 * c)) 4 raw"

text \<open>
  The chunk stream of a PNG file as a decoder reads it: a 4-byte big-endian payload
  length, a 4-byte type tag, the payload and a 4-byte big-endian checksum, which must be
  the CRC-32 of tag and payload; then the next chunk, up to the end of the input. A chunk
  is returned as its tag, its payload and its stored checksum.
\<close>

type_synonym chunk = "bytes \<times> bytes \<times> nat"

function parse_chunks :: "bytes \<Rightarrow> chunk list option" where
  "parse_chunks bs =
     (if bs = [] then Some []
      else if length bs < 12 then None
      else (let n = be_uint (bytes_at 0 4 bs) in
        if length bs < 12 + n then None
        else (let ty = bytes_at 4 4 bs;
                  payload = bytes_at 8 n bs;
                  crc = be_uint (bytes_at (8 + n) 4 bs) in
          if int crc \<noteq> zlib_crc32 (ty @ payload) then None
          else (case parse_chunks (drop (12 + n) bs) of
                  None \<Rightarrow> None
                | Some cs \<Rightarrow> Some ((ty, payload, crc) # cs)))))"
  by pat_completeness auto
termination
  by (relation "measure length") auto

text \<open>
  The layout of one chunk in the words of the PNG format, independent of
  \<open>struct_pack\<close>: the four bytes of a number below \<open>2 ^ 32\<close>, most significant first,
  and a chunk built from them.
\<close>

definition be32 :: "nat \<Rightarrow> bytes" where
  "be32 n = [of_nat (n div 16777216), of_nat (n div 65536), of_nat (n div 256), of_nat n]"

definition spec_chunk :: "bytes \<Rightarrow> bytes \<Rightarrow> bytes" where
  "spec_chunk ty data = be32 (length data) @ ty @ data @ be32 (nat (zlib_crc32 (ty @ data)))"

text \<open>
  The whole PNG file in the words of the format: the 8-byte signature, then the chunks
  IHDR (with the 13-byte header payload), IDAT (with payload \<open>z\<close>) and IEND (empty).
\<close>

definition spec_png :: "bytes \<Rightarrow> bytes" where
  "spec_png z =
     [0x89, 0x50, 0x4e, 0x47, 0x0d, 0x0a, 0x1a, 0x0a] @
     spec_chunk [0x49, 0x48, 0x44, 0x52] [0, 0, 0, 32, 0, 0, 0, 32, 8, 6, 0, 0, 0] @
     spec_chunk [0x49, 0x44, 0x41, 0x54] z @
     spec_chunk [0x49, 0x45, 0x4e, 0x44] []"

section \<open>A stored-block compressor\<close>

text \<open>
  One compressor to put in the place of the library's where a theorem about any
  compressor is applied to a concrete one: the zlib container (RFC 1950) with stored
  deflate blocks (RFC 1951, block type 00), that is the header \<open>78 01\<close>, blocks of at most
  65535 bytes, each with a final-block flag, its length and the complement of its
  length, and the Adler-32 checksum of the data, big-endian.
\<close>

fun adler_step :: "nat \<times> nat \<Rightarrow> byte \<Rightarrow> nat \<times> nat" where
  "adler_step (a, b) x = ((a + unat x) mod 65521, (b + (a + unat x) mod 65521) mod 65521)"

definition adler32 :: "bytes \<Rightarrow> nat" where
  "adler32 bs = (case foldl adler_step (1, 0) bs of (a, b) \<Rightarrow> b * 65536 + a)"

function stored_blocks :: "bytes \<Rightarrow> bytes" where
  "stored_blocks bs =
     (if length bs \<le> 65535
      then [0x01] @ le_bytes 2 (int (length bs)) @ le_bytes 2 (int (65535 - length bs)) @ bs
      else [0x00, 0xff, 0xff, 0x00, 0x00] @ take 65535 bs @ stored_blocks (drop 65535 bs))"
  by pat_completeness auto
termination
  by (relation "measure length") auto

definition stored_compress :: "bytes \<Rightarrow> bytes" where
  "stored_compress bs = [0x78, 0x01] @ stored_blocks bs @ rev (le_bytes 4 (int (adler32 bs)))"

section \<open>Reading a zlib stream\<close>

text \<open>
  \<^verbatim>\<open>zlib.decompress\<close>, the reader of what \<^verbatim>\<open>zlib.compress\<close> writes, as the formats
  define it: the zlib container of RFC 1950 around the deflate blocks of RFC 1951,
  stored, with the fixed codes and with dynamic codes.
\<close>

subsection \<open>Bits\<close>



fun bits_val :: "bool list \<Rightarrow> nat" where
  "bits_val [] = 0"
| "bits_val (b # bs) = (if b then 1 else 0) + 2 * bits_val bs"

definition read_bits :: "nat \<Rightarrow> bool list \<Rightarrow> (nat \<times> bool list) option" where
  "read_bits n bs = (if length bs < n then None else Some (bits_val (take n bs), drop n bs))"

fun read_many :: "nat \<Rightarrow> nat \<Rightarrow> bool list \<Rightarrow> (nat list \<times> bool list) option" where
  "read_many 0 wd bs = Some ([], bs)"
| "read_many (Suc n) wd bs =
     (case read_bits wd bs of
        None \<Rightarrow> None
      | Some (v, bs1) \<Rightarrow>
          (case read_many n wd bs1 of
             None \<Rightarrow> None
           | Some (vs, bs2) \<Rightarrow> Some (v # vs, bs2)))"

fun bits_bytes :: "bool list \<Rightarrow> bytes" where
  "bits_bytes (b0 # b1 # b2 # b3 # b4 # b5 # b6 # b7 # bs) =
     of_nat (bits_val [b0, b1, b2, b3, b4, b5, b6, b7]) # bits_bytes bs"
| "bits_bytes bs = []"

subsection \<open>Huffman codes\<close>

text \<open>
  A code is given by the bit length of each symbol (0 for a symbol that is not used).
  Among the symbols of one length the codes are consecutive, in symbol order, starting
  at \<open>next_code\<close> of that length (RFC 1951, 3.2.2). Codes are read most significant
  bit first; the tree has one leaf per code. That the lengths form a complete code is
  not checked here.
\<close>

datatype htree = Empty | Leaf nat | Node htree htree

fun tree_insert :: "bool list \<Rightarrow> nat \<Rightarrow> htree \<Rightarrow> htree" where
  "tree_insert [] s t = Leaf s"
| "tree_insert (b # bs) s (Node l r) =
     (if b then Node l (tree_insert bs s r) else Node (tree_insert bs s l) r)"
| "tree_insert (b # bs) s t =
     (if b then Node Empty (tree_insert bs s Empty) else Node (tree_insert bs s Empty) Empty)"

fun next_code :: "nat list \<Rightarrow> nat \<Rightarrow> nat" where
  "next_code lens 0 = 0"
| "next_code lens (Suc b) = 2 * (next_code lens b + (if b = 0 then 0 else count_list lens b))"

fun code_bits :: "nat \<Rightarrow> nat \<Rightarrow> bool list" where
  "code_bits 0 c = []"
| "code_bits (Suc n) c = code_bits n (c div 2) @ [odd c]"

fun add_codes :: "nat list \<Rightarrow> nat list \<Rightarrow> nat \<Rightarrow> nat list \<Rightarrow> htree \<Rightarrow> htree" where
  "add_codes lens seen s [] t = t"
| "add_codes lens seen s (l # ls) t =
     add_codes lens (l # seen) (s + 1) ls
       (if l = 0 then t
        else tree_insert (code_bits l (next_code lens l + count_list seen l)) s t)"

definition huff_tree :: "nat list \<Rightarrow> htree" where
  "huff_tree lens = add_codes lens [] 0 lens Empty"

fun huff_walk :: "htree \<Rightarrow> bool list \<Rightarrow> (nat \<times> bool list) option" where
  "huff_walk (Leaf s) bs = Some (s, bs)"
| "huff_walk Empty bs = None"
| "huff_walk (Node l r) [] = None"
| "huff_walk (Node l r) (True # bs) = huff_walk r bs"
| "huff_walk (Node l r) (False # bs) = huff_walk l bs"

subsection \<open>Lengths and distances\<close>

text \<open>
  The symbols 257 to 285 stand for match lengths and the distance symbols 0 to 29 for
  distances, each a base value plus some extra bits (RFC 1951, 3.2.5). A match copies
  \<open>len\<close> bytes, one at a time, from \<open>dist\<close> bytes back in the output, so that it may
  run into the bytes it has just written. The output is kept with its latest byte first.
\<close>

definition length_base :: "nat list" where
  "length_base = [3, 4, 5, 6, 7, 8, 9, 10, 11, 13, 15, 17, 19, 23, 27, 31, 35, 43, 51, 59,
     67, 83, 99, 115, 131, 163, 195, 227, 258]"

definition length_extra :: "nat list" where
  "length_extra = [0, 0, 0, 0, 0, 0, 0, 0, 1, 1, 1, 1, 2, 2, 2, 2, 3, 3, 3, 3,
     4, 4, 4, 4, 5, 5, 5, 5, 0]"

definition dist_base :: "nat list" where
  "dist_base = [1, 2, 3, 4, 5, 7, 9, 13, 17, 25, 33, 49, 65, 97, 129, 193, 257, 385, 513,
     769, 1025, 1537, 2049, 3073, 4097, 6145, 8193, 12289, 16385, 24577]"

definition dist_extra :: "nat list" where
  "dist_extra = [0, 0, 0, 0, 1, 1, 2, 2, 3, 3, 4, 4, 5, 5, 6, 6, 7, 7, 8, 8,
     9, 9, 10, 10, 11, 11, 12, 12, 13, 13]"

definition read_length :: "nat \<Rightarrow> bool list \<Rightarrow> (nat \<times> bool list) option" where
  "read_length s bs =
     (if s < 257 \<or> 285 < s then None
      else (case read_bits (length_extra ! (s - 257)) bs of
              None \<Rightarrow> None
            | Some (x, bs1) \<Rightarrow> Some (length_base ! (s - 257) + x, bs1)))"

definition read_dist :: "nat \<Rightarrow> bool list \<Rightarrow> (nat \<times> bool list) option" where
  "read_dist s bs =
     (if 29 < s then None
      else (case read_bits (dist_extra ! s) bs of
              None \<Rightarrow> None
            | Some (x, bs1) \<Rightarrow> Some (dist_base ! s + x, bs1)))"

fun lz_copy :: "nat \<Rightarrow> nat \<Rightarrow> bytes \<Rightarrow> bytes option" where
  "lz_copy 0 dist hist = Some hist"
| "lz_copy (Suc n) dist hist =
     (if dist = 0 \<or> length hist < dist then None
      else lz_copy n dist (hist ! (dist - 1) # hist))"

subsection \<open>Blocks\<close>

text \<open>
  The data of a compressed block is a sequence of symbols up to the end-of-block symbol
  256. The comparisons of input lengths only serve the termination proofs: reading never
  makes the input longer.
\<close>

function inflate_codes ::
  "htree \<Rightarrow> htree \<Rightarrow> bool list \<Rightarrow> bytes \<Rightarrow> (bool list \<times> bytes) option" where
  "inflate_codes lt dt bs hist =
     (case huff_walk lt bs of
        None \<Rightarrow> None
      | Some (s, bs1) \<Rightarrow>
          if \<not> length bs1 < length bs then None
          else if s < 256 then inflate_codes lt dt bs1 (of_nat s # hist)
          else if s = 256 then Some (bs1, hist)
          else (case read_length s bs1 of
                  None \<Rightarrow> None
                | Some (len, bs2) \<Rightarrow>
                    (case huff_walk dt bs2 of
                       None \<Rightarrow> None
                     | Some (ds, bs3) \<Rightarrow>
                         (case read_dist ds bs3 of
                            None \<Rightarrow> None
                          | Some (dist, bs4) \<Rightarrow>
                              if \<not> length bs4 \<le> length bs1 then None
                              else (case lz_copy len dist hist of
                                      None \<Rightarrow> None
                                    | Some hist' \<Rightarrow> inflate_codes lt dt bs4 hist')))))"
  by pat_completeness auto
termination
  by (relation "measure (\<lambda>(lt, dt, bs, hist). length bs)") auto

text \<open>
  A block with dynamic codes starts with the numbers of literal/length and distance
  codes and the lengths of the code that encodes their lengths (RFC 1951, 3.2.7).
\<close>

definition cl_order :: "nat list" where
  "cl_order = [16, 17, 18, 0, 8, 7, 9, 6, 10, 5, 11, 4, 12, 3, 13, 2, 14, 1, 15]"

definition cl_lengths :: "nat list \<Rightarrow> nat list" where
  "cl_lengths vals =
     map (\<lambda>s. case map_of (zip cl_order vals) s of None \<Rightarrow> 0 | Some l \<Rightarrow> l)
       [0, 1, 2, 3, 4, 5, 6, 7, 8, 9, 10, 11, 12, 13, 14, 15, 16, 17, 18]"

function read_code_lengths ::
  "htree \<Rightarrow> nat \<Rightarrow> bool list \<Rightarrow> nat list \<Rightarrow> (nat list \<times> bool list) option" where
  "read_code_lengths ct need bs acc =
     (if need \<le> length acc then (if length acc = need then Some (rev acc, bs) else None)
      else (case huff_walk ct bs of
              None \<Rightarrow> None
            | Some (s, bs1) \<Rightarrow>
                if s < 16 then read_code_lengths ct need bs1 (s # acc)
                else if s = 16 then
                  (case acc of
                     [] \<Rightarrow> None
                   | prev # _ \<Rightarrow>
                       (case read_bits 2 bs1 of
                          None \<Rightarrow> None
                        | Some (r, bs2) \<Rightarrow>
                            read_code_lengths ct need bs2 (replicate (3 + r) prev @ acc)))
                else if s = 17 then
                  (case read_bits 3 bs1 of
                     None \<Rightarrow> None
                   | Some (r, bs2) \<Rightarrow>
                       read_code_lengths ct need bs2 (replicate (3 + r) 0 @ acc))
                else if s = 18 then
                  (case read_bits 7 bs1 of
                     None \<Rightarrow> None
                   | Some (r, bs2) \<Rightarrow>
                       read_code_lengths ct need bs2 (replicate (11 + r) 0 @ acc))
                else None))"
  by pat_completeness auto
termination
  by (relation "measure (\<lambda>(ct, need, bs, acc). need - length acc)") auto

definition dynamic_trees :: "bool list \<Rightarrow> ((htree \<times> htree) \<times> bool list) option" where
  "dynamic_trees bs =
     (case read_bits 5 bs of None \<Rightarrow> None | Some (hlit, bs1) \<Rightarrow>
     (case read_bits 5 bs1 of None \<Rightarrow> None | Some (hdist, bs2) \<Rightarrow>
     (case read_bits 4 bs2 of None \<Rightarrow> None | Some (hclen, bs3) \<Rightarrow>
        if 286 < hlit + 257 \<or> 30 < hdist + 1 then None
        else
     (case read_many (hclen + 4) 3 bs3 of None \<Rightarrow> None | Some (cls, bs4) \<Rightarrow>
     (case read_code_lengths (huff_tree (cl_lengths cls)) (hlit + 257 + (hdist + 1)) bs4 [] of
        None \<Rightarrow> None
      | Some (lens, bs5) \<Rightarrow>
          if lens ! 256 = 0 then None
          else Some ((huff_tree (take (hlit + 257) lens),
                      huff_tree (drop (hlit + 257) lens)), bs5))))))"

text \<open>The fixed codes (RFC 1951, 3.2.6) and a stored block (3.2.4).\<close>

definition fixed_lit_tree :: htree where
  "fixed_lit_tree =
     huff_tree (replicate 144 8 @ replicate 112 9 @ replicate 24 7 @ replicate 8 8)"

definition fixed_dist_tree :: htree where
  "fixed_dist_tree = huff_tree (replicate 32 5)"

definition stored_block :: "bool list \<Rightarrow> bytes \<Rightarrow> (bool list \<times> bytes) option" where
  "stored_block bs hist =
     (case read_bits 16 (drop (length bs mod 8) bs) of None \<Rightarrow> None | Some (len, bs1) \<Rightarrow>
     (case read_bits 16 bs1 of None \<Rightarrow> None | Some (nlen, bs2) \<Rightarrow>
        if len + nlen \<noteq> 65535 \<or> length bs2 < 8 * len then None
        else Some (drop (8 * len) bs2, rev (bits_bytes (take (8 * len) bs2)) @ hist)))"

text \<open>Blocks follow one another up to the one whose first bit is set.\<close>

function inflate_blocks :: "bool list \<Rightarrow> bytes \<Rightarrow> (bool list \<times> bytes) option" where
  "inflate_blocks bs hist =
     (case read_bits 1 bs of None \<Rightarrow> None | Some (final, bs1) \<Rightarrow>
     (case read_bits 2 bs1 of None \<Rightarrow> None | Some (btype, bs2) \<Rightarrow>
     (case (if btype = 0 then stored_block bs2 hist
            else if btype = 1 then inflate_codes fixed_lit_tree fixed_dist_tree bs2 hist
            else if btype = 2 then
              (case dynamic_trees bs2 of
                 None \<Rightarrow> None
               | Some ((lt, dt), bs3) \<Rightarrow> inflate_codes lt dt bs3 hist)
            else None) of
        None \<Rightarrow> None
      | Some (bs', hist') \<Rightarrow>
          if final = 1 then Some (bs', hist')
          else if length bs' < length bs then inflate_blocks bs' hist'
          else None)))"
  by pat_completeness auto
termination
  by (relation "measure (\<lambda>(bs, hist). length bs)") auto


section \<open>What the library writes for the raw buffer\<close>


text \<open>An environment and a world to run the script in.\<close>

definition demo_env :: env where
  "demo_env = \<lparr>dir_path = ''/katara/src-tauri/icons'', writable = (\<lambda>p. True)\<rparr>"

definition empty_world :: world where
  "empty_world = \<lparr>files = (\<lambda>p. None), stdout = []\<rparr>"

section \<open>Evaluating the packed values\<close>

declare parse_chunks.simps [simp del] stored_blocks.simps [simp del]
  inflate_codes.simps [simp del] read_code_lengths.simps [simp del]
  inflate_blocks.simps [simp del]

lemma le_bytes_1: "le_bytes 1 v = [word_of_int v]"
  by (simp add: numeral_eq_Suc)

lemma le_bytes_2: "le_bytes 2 v = [word_of_int v, word_of_int (v div 256)]"
  by (simp add: numeral_2_eq_2)

lemma le_bytes_4:
  "le_bytes 4 v = [word_of_int v, word_of_int (v div 256), word_of_int (v div 256 div 256),
     word_of_int (v div 256 div 256 div 256)]"
  by (simp add: numeral_eq_Suc)

lemmas pack_simps = pack_field_def le_bytes_1 le_bytes_2 le_bytes_4

lemma length_bytes_mul: "length (bytes_mul b n) = nat n * length b"
  by (simp add: bytes_mul_def length_concat sum_list_replicate)

lemma bytes_mul_mul:
  "0 \<le> m \<Longrightarrow> 0 \<le> n \<Longrightarrow> bytes_mul (bytes_mul b m) n = bytes_mul b (m * n)"
proof -
  assume m: "0 \<le> m" and n: "0 \<le> n"
  have "concat (replicate j (concat (replicate i b))) = concat (replicate (i * j) b)"
    for i j :: nat
    by (induction j) (simp_all add: replicate_add)
  then show ?thesis using m n by (simp add: bytes_mul_def nat_mult_distrib)
qed

lemma px_val: "px = concat (replicate 256 [0xf6, 0x82, 0x3b, 0xff])"
  by (simp add: px_def w_def h_def bytes_mul_mul) (simp add: bytes_mul_def)

lemma mask_val: "mask_bytes = replicate 64 0"
proof -
  have "concat (replicate k [0::byte]) = replicate k 0" for k
    by (induction k) simp_all
  then show ?thesis
    by (simp add: mask_bytes_def w_def h_def bytes_mul_mul) (simp add: bytes_mul_def)
qed

lemma length_px: "length px = 1024"
  by (simp add: px_def w_def h_def length_bytes_mul)

lemma length_mask: "length mask_bytes = 64"
  by (simp add: mask_bytes_def h_def length_bytes_mul)

lemma info_val:
  "info = Inr [40,0,0,0, 16,0,0,0, 32,0,0,0, 1,0, 32,0, 0,0,0,0, 0,0,0,0,
               0,0,0,0, 0,0,0,0, 0,0,0,0, 0,0,0,0]"
  by (simp add: info_def w_def h_def pack_simps)

lemma hdr_val: "hdr = Inr [0,0, 1,0, 1,0]"
  by (simp add: hdr_def pack_simps)

lemma img_val:
  "img = Inr ([40,0,0,0, 16,0,0,0, 32,0,0,0, 1,0, 32,0, 0,0,0,0, 0,0,0,0,
               0,0,0,0, 0,0,0,0, 0,0,0,0, 0,0,0,0] @ px @ mask_bytes)"
  by (simp add: img_def info_val)

lemma d_val: "d = Inr [16, 16, 0, 0, 1,0, 32,0, 0x68,0x04,0,0, 22,0,0,0]"
  by (simp add: d_def img_val length_px length_mask w_def h_def pack_simps)

lemma ico_data_val:
  "ico_data = Inr ([0,0, 1,0, 1,0] @ [16, 16, 0, 0, 1,0, 32,0, 0x68,0x04,0,0, 22,0,0,0]
     @ [40,0,0,0, 16,0,0,0, 32,0,0,0, 1,0, 32,0, 0,0,0,0, 0,0,0,0,
        0,0,0,0, 0,0,0,0, 0,0,0,0, 0,0,0,0] @ px @ mask_bytes)"
  by (simp add: ico_data_def hdr_val d_val img_val)

lemma ihdr_val: "ihdr_data = Inr [0,0,0,32, 0,0,0,32, 8, 6, 0, 0, 0]"
  by (simp add: ihdr_data_def w2_def h2_def pack_simps)

lemmas ico_read_simps =
  read_le_def read_bytes_def data_length_def ico_data_val length_px length_mask bytes_at_def

lemma bytes_at_concat_replicate:
  "r < n \<Longrightarrow> length f = k \<Longrightarrow> j + m \<le> k \<Longrightarrow>
     bytes_at (k * r + j) m (concat (replicate n f)) = bytes_at j m f"
proof (induction r arbitrary: n)
  case 0
  then obtain n' where "n = Suc n'" by (cases n) auto
  with 0 show ?case by (simp add: bytes_at_def)
next
  case (Suc r)
  then obtain n' where n: "n = Suc n'" and "r < n'" by (cases n) auto
  with Suc.prems Suc.IH [of n'] show ?case by (simp add: bytes_at_def add.assoc)
qed

lemma raw_loop_eq:
  "raw_loop n acc = acc @ concat (replicate n (0 # concat (replicate 32 [0x3b, 0x82, 0xf6, 0xff])))"
proof (induction n arbitrary: acc)
  case 0
  show ?case by simp
next
  case (Suc n)
  have "replicate (Suc n) x = x # replicate n x" for x :: bytes by simp
  then show ?case
    by (simp add: Suc.IH bytes_mul_def w2_def del: replicate.simps)
qed

lemma raw_val: "raw = concat (replicate 32 (0 # concat (replicate 32 [0x3b, 0x82, 0xf6, 0xff])))"
  by (simp add: raw_def h2_def raw_loop_eq)

lemma length_scanline: "length (0 # concat (replicate 32 [0x3b, 0x82, 0xf6, 0xff :: byte])) = 129"
  by (simp add: length_concat sum_list_replicate)

lemma length_raw: "length raw = 4128"
  by (simp add: raw_val length_concat sum_list_replicate)

lemma ico_pixel_val: "i < 256 \<Longrightarrow> ico_pixel i = [0xf6, 0x82, 0x3b, 0xff]"
  using bytes_at_concat_replicate [of i 256 "[0xf6, 0x82, 0x3b, 0xff]" 4 0 4]
  by (simp add: ico_pixel_def px_val bytes_at_def)

lemma png_pixel_val:
  assumes "r < 32" and "c < 32"
  shows "png_pixel r c = [0x3b, 0x82, 0xf6, 0xff]"
proof -
  have "png_pixel r c =
      bytes_at (1 + 4 * c) 4 (0 # concat (replicate 32 [0x3b, 0x82, 0xf6, 0xff]))"
    unfolding png_pixel_def raw_val
    using assms
    by (intro bytes_at_concat_replicate) (simp_all add: length_concat sum_list_replicate)
  also have "\<dots> = bytes_at (4 * c + 0) 4 (concat (replicate 32 [0x3b, 0x82, 0xf6, 0xff]))"
    by (simp add: bytes_at_def)
  also have "\<dots> = bytes_at 0 4 [0x3b, 0x82, 0xf6, 0xff]"
    using assms by (intro bytes_at_concat_replicate) simp_all
  finally show ?thesis by (simp add: bytes_at_def)
qed

section \<open>Chunks as packed and as parsed\<close>

lemma unat_byte_of_int: "unat (word_of_int v :: byte) = nat (v mod 256)"
  by (simp add: unat_eq_nat_uint uint_word_of_int)

lemma le_uint_le_bytes: "le_uint (le_bytes k v) = nat (v mod 256 ^ k)"
proof (induction k arbitrary: v)
  case 0
  show ?case by simp
next
  case (Suc k)
  have "v mod (256 * 256 ^ k) = 256 * (v div 256 mod 256 ^ k) + v mod 256"
    by (rule zmod_zmult2_eq) simp
  moreover have "0 \<le> v div 256 mod 256 ^ k" "0 \<le> v mod 256" by simp_all
  ultimately show ?case
    by (simp add: Suc.IH unat_byte_of_int nat_add_distrib nat_mult_distrib)
qed

lemma length_le_bytes: "length (le_bytes k v) = k"
  by (induction k arbitrary: v) simp_all

lemma be_uint_be32: "0 \<le> v \<Longrightarrow> v < 2 ^ 32 \<Longrightarrow> be_uint (rev (le_bytes 4 v)) = nat v"
  by (simp add: be_uint_def le_uint_le_bytes)

lemma byte_of_int_div:
  assumes "0 \<le> v" and "0 < k"
  shows "(word_of_int (v div k) :: byte) = of_nat (nat v div nat k)"
proof -
  have "int (nat v div nat k) = v div k"
    using assms by (simp add: zdiv_int)
  then have "v div k = int (nat v div nat k)" by simp
  then show ?thesis by (simp only: word_of_int_nat of_int_of_nat_eq)
qed

lemma rev_le_bytes_4: "0 \<le> v \<Longrightarrow> rev (le_bytes 4 v) = be32 (nat v)"
proof -
  assume v: "0 \<le> v"
  have d2: "v div 256 div 256 = v div 65536"
    and d3: "v div 65536 div 256 = v div 16777216"
    by (simp_all add: zdiv_zmult2_eq)
  have b0: "(word_of_int v :: byte) = of_nat (nat v)"
    using byte_of_int_div [OF v, of 1] by simp
  have b1: "(word_of_int (v div 256) :: byte) = of_nat (nat v div 256)"
    using byte_of_int_div [OF v, of 256] by simp
  have b2: "(word_of_int (v div 65536) :: byte) = of_nat (nat v div 65536)"
    using byte_of_int_div [OF v, of 65536] by simp
  have b3: "(word_of_int (v div 16777216) :: byte) = of_nat (nat v div 16777216)"
    using byte_of_int_div [OF v, of 16777216] by simp
  show ?thesis
    unfolding le_bytes_4 be32_def d2 d3 b0 b1 b2 b3 by simp
qed

lemma pack_be32:
  "0 \<le> v \<Longrightarrow> v < 2 ^ 32 \<Longrightarrow> struct_pack BigEndian [Fmt_I] [v] = Inr (rev (le_bytes 4 v))"
  by (simp add: pack_field_def)

lemma zlib_crc32_range: "0 \<le> zlib_crc32 bs" "zlib_crc32 bs < 2 ^ 32"
proof -
  show "0 \<le> zlib_crc32 bs" by (simp add: zlib_crc32_def)
  have "uint (crc32_word bs) < 2 ^ LENGTH(32)" by (rule uint_lt2p)
  then show "zlib_crc32 bs < 2 ^ 32" by (simp add: zlib_crc32_def)
qed

lemma zlib_crc32_masked: "zlib_crc32 bs AND 0xffffffff = zlib_crc32 bs"
proof -
  have "zlib_crc32 bs AND mask 32 = zlib_crc32 bs"
    using zlib_crc32_range [of bs] by (simp add: take_bit_eq_mask [symmetric] take_bit_int_eq_self)
  then show ?thesis by (simp add: mask_eq_exp_minus_1)
qed

lemma int_length_less: "length (xs :: bytes) < 2 ^ 32 \<longleftrightarrow> int (length xs) < 2 ^ 32"
  by (simp add: of_nat_less_iff [of _ "2 ^ 32", simplified])

lemma png_chunk_val:
  assumes "length data < 2 ^ 32"
  shows "png_chunk ty data = Inr (spec_chunk ty data)"
proof -
  have "int (length data) < 2 ^ 32" using assms by (simp add: int_length_less)
  then show ?thesis
    using zlib_crc32_range [of "ty @ data"]
    by (simp add: png_chunk_def zlib_crc32_masked pack_be32 spec_chunk_def rev_le_bytes_4
        del: struct_pack.simps)
qed

lemma png_chunk_too_long:
  assumes "\<not> length data < 2 ^ 32"
  shows "png_chunk ty data = Inl StructError"
proof -
  have "\<not> int (length data) < 2 ^ 32" using assms by (simp add: int_length_less)
  then show ?thesis by (simp add: png_chunk_def pack_field_def)
qed

lemma length_be32: "length (be32 n) = 4"
  by (simp add: be32_def)

lemma be_uint_be32_nat: "n < 2 ^ 32 \<Longrightarrow> be_uint (be32 n) = n"
  using be_uint_be32 [of "int n"] rev_le_bytes_4 [of "int n"]
  by (simp add: of_nat_less_iff [of _ "2 ^ 32", simplified])

lemma parse_chunks_chunk:
  assumes "length ty = 4" and "length data < 2 ^ 32"
  shows "parse_chunks (spec_chunk ty data @ rest) =
         (case parse_chunks rest of
            None \<Rightarrow> None
          | Some cs \<Rightarrow> Some ((ty, data, nat (zlib_crc32 (ty @ data))) # cs))"
proof -
  let ?c = "be32 (nat (zlib_crc32 (ty @ data)))"
  let ?bs = "be32 (length data) @ ty @ data @ ?c @ rest"
  have crc_lt: "nat (zlib_crc32 (ty @ data)) < 2 ^ 32"
    using zlib_crc32_range [of "ty @ data"] by (simp add: nat_less_iff)
  have n: "be_uint (bytes_at 0 4 ?bs) = length data"
    using assms(2) by (simp add: bytes_at_def length_be32 be_uint_be32_nat)
  have ty: "bytes_at 4 4 ?bs = ty" using assms(1) by (simp add: bytes_at_def length_be32)
  have pl: "bytes_at 8 (length data) ?bs = data"
    using assms(1) by (simp add: bytes_at_def length_be32)
  have crc: "be_uint (bytes_at (8 + length data) 4 ?bs) = nat (zlib_crc32 (ty @ data))"
    using assms(1) crc_lt by (simp add: bytes_at_def length_be32 be_uint_be32_nat)
  have rest: "drop (12 + length data) ?bs = rest"
    using assms(1) by (simp add: length_be32)
  have len: "\<not> length ?bs < 12 + length data" "\<not> length ?bs < 12" "?bs \<noteq> []"
    using assms(1) by (auto simp: length_be32 be32_def)
  have eq: "spec_chunk ty data @ rest = ?bs" by (simp add: spec_chunk_def)
  show ?thesis
    unfolding eq
    apply (subst parse_chunks.simps)
    using zlib_crc32_range [of "ty @ data"]
    apply (simp only: n ty pl crc rest len Let_def if_False)
    apply simp
    done
qed

lemma parse_chunks_Nil: "parse_chunks [] = Some []"
  by (simp add: parse_chunks.simps)

lemma ascii_tags:
  "b_ascii ''IHDR'' = [0x49, 0x48, 0x44, 0x52]"
  "b_ascii ''IDAT'' = [0x49, 0x44, 0x41, 0x54]"
  "b_ascii ''IEND'' = [0x49, 0x45, 0x4e, 0x44]"
  by (simp_all add: b_ascii_def)

lemma png_signature_val: "png_signature = [0x89, 0x50, 0x4e, 0x47, 0x0d, 0x0a, 0x1a, 0x0a]"
  by (simp add: png_signature_def b_ascii_def)

lemma length_tags:
  "length (b_ascii ''IHDR'') = 4" "length (b_ascii ''IDAT'') = 4" "length (b_ascii ''IEND'') = 4"
  by (simp_all add: b_ascii_def)

lemma parse_three_chunks:
  assumes "length t1 = 4" "length t2 = 4" "length t3 = 4"
    and "length p1 < 2 ^ 32" "length p2 < 2 ^ 32" "length p3 < 2 ^ 32"
  shows "parse_chunks (spec_chunk t1 p1 @ spec_chunk t2 p2 @ spec_chunk t3 p3) =
     Some [(t1, p1, nat (zlib_crc32 (t1 @ p1))), (t2, p2, nat (zlib_crc32 (t2 @ p2))),
           (t3, p3, nat (zlib_crc32 (t3 @ p3)))]"
proof -
  have 3: "parse_chunks (spec_chunk t3 p3) = Some [(t3, p3, nat (zlib_crc32 (t3 @ p3)))]"
    using parse_chunks_chunk [of t3 p3 "[]"] assms by (simp add: parse_chunks_Nil)
  have 2: "parse_chunks (spec_chunk t2 p2 @ spec_chunk t3 p3) =
      Some [(t2, p2, nat (zlib_crc32 (t2 @ p2))), (t3, p3, nat (zlib_crc32 (t3 @ p3)))]"
    using parse_chunks_chunk [of t2 p2 "spec_chunk t3 p3"] assms by (simp add: 3)
  show ?thesis
    using parse_chunks_chunk [of t1 p1 "spec_chunk t2 p2 @ spec_chunk t3 p3"] assms
    by (simp add: 2)
qed

text \<open>
  Two values of the CRC-32 as modelled, the checksums of the fixed IHDR and IEND chunks
  (the second is the one every PNG file ends with), and the two chunks they give.
\<close>

lemma crc32_byte_unfold:
  "crc32_byte c b = crc32_bit (crc32_bit (crc32_bit (crc32_bit (crc32_bit (crc32_bit
     (crc32_bit (crc32_bit (c XOR ucast b))))))))"
  by (simp add: crc32_byte_def numeral_eq_Suc)

lemmas crc32_eval = zlib_crc32_def crc32_word_def crc32_byte_unfold crc32_bit_def

lemma crc32_iend: "zlib_crc32 (b_ascii ''IEND'') = 0xAE426082"
  by (simp add: crc32_eval b_ascii_def)

lemma crc32_ihdr:
  "zlib_crc32 (b_ascii ''IHDR'' @ [0, 0, 0, 32, 0, 0, 0, 32, 8, 6, 0, 0, 0]) = 0x737A7AF4"
  by (simp add: crc32_eval b_ascii_def)

lemma iend_chunk_val:
  "png_chunk (b_ascii ''IEND'') [] =
     Inr [0, 0, 0, 0, 0x49, 0x45, 0x4e, 0x44, 0xae, 0x42, 0x60, 0x82]"
  using png_chunk_val [of "[]" "b_ascii ''IEND''"] crc32_iend
  by (simp add: spec_chunk_def be32_def ascii_tags)

lemma ihdr_chunk_val:
  "png_chunk (b_ascii ''IHDR'') [0, 0, 0, 32, 0, 0, 0, 32, 8, 6, 0, 0, 0] =
     Inr [0, 0, 0, 13, 0x49, 0x48, 0x44, 0x52, 0, 0, 0, 32, 0, 0, 0, 32, 8, 6, 0, 0, 0,
          0x73, 0x7a, 0x7a, 0xf4]"
  using png_chunk_val [of "[0, 0, 0, 32, 0, 0, 0, 32, 8, 6, 0, 0, 0]" "b_ascii ''IHDR''"] crc32_ihdr
  by (simp add: spec_chunk_def be32_def ascii_tags)

section \<open>What a run leaves behind\<close>

lemma paths_distinct: "ico_path e \<noteq> png_path e"
  by (simp add: ico_path_def png_path_def os_path_join_def)

lemma main_Finished_iff:
  assumes ico: "ico_data = Inr ico"
  shows "main zc e wd = Finished wd' \<longleftrightarrow>
     writable e (ico_path e) \<and> writable e (png_path e) \<and> length (zc raw) < 2 ^ 32 \<and>
     wd' = wd\<lparr>files := (files wd)(ico_path e \<mapsto> ico, png_path e \<mapsto> spec_png (zc raw)),
               stdout := stdout wd @
                 [''Created '' @ ico_path e, ''Created '' @ png_path e, ''Done!'']\<rparr>"
proof (cases "length (zc raw) < 2 ^ 32")
  case True
  have c1: "png_chunk [0x49, 0x48, 0x44, 0x52] [0, 0, 0, 32, 0, 0, 0, 32, 8, 6, 0, 0, 0] =
      Inr (spec_chunk [0x49, 0x48, 0x44, 0x52] [0, 0, 0, 32, 0, 0, 0, 32, 8, 6, 0, 0, 0])"
    by (rule png_chunk_val) simp
  have c3: "png_chunk [0x49, 0x45, 0x4e, 0x44] [] = Inr (spec_chunk [0x49, 0x45, 0x4e, 0x44] [])"
    by (rule png_chunk_val) simp
  have c2: "png_chunk [0x49, 0x44, 0x41, 0x54] (zc raw) =
      Inr (spec_chunk [0x49, 0x44, 0x41, 0x54] (zc raw))"
    using True by (rule png_chunk_val)
  show ?thesis
    using True
    by (auto simp: main_def ico ihdr_val c1 c2 c3 open_wb_def f_write_def print_line_def
        spec_png_def png_signature_val ascii_tags Let_def)
next
  case False
  then have "png_chunk (b_ascii ''IDAT'') (zc raw) = Inl StructError"
    by (rule png_chunk_too_long)
  with False show ?thesis
    by (simp add: main_def ico ihdr_val open_wb_def Let_def split: sum.splits)
qed

lemma main_files:
  assumes "main zc e wd = Finished wd'"
  shows "files wd' (ico_path e) = Some
           ([0,0, 1,0, 1,0] @ [16, 16, 0, 0, 1,0, 32,0, 0x68,0x04,0,0, 22,0,0,0]
            @ [40,0,0,0, 16,0,0,0, 32,0,0,0, 1,0, 32,0, 0,0,0,0, 0,0,0,0,
               0,0,0,0, 0,0,0,0, 0,0,0,0, 0,0,0,0] @ px @ mask_bytes)"
    and "files wd' (png_path e) = Some (spec_png (zc raw))"
  using assms paths_distinct [of e] by (simp_all add: main_Finished_iff [OF ico_data_val])

section \<open>The stored-block compressor on the raw buffer\<close>

lemma length_stored_compress:
  "length bs \<le> 65535 \<Longrightarrow> length (stored_compress bs) = length bs + 11"
  by (subst stored_compress_def, subst stored_blocks.simps) (simp add: length_le_bytes)

lemma stored_raw_fits: "length (stored_compress raw) < 2 ^ 32"
  by (simp add: length_stored_compress length_raw)

lemma demo_writable:
  "writable demo_env (ico_path demo_env)" "writable demo_env (png_path demo_env)"
  by (simp_all add: demo_env_def)


section \<open>Inflating the library's output\<close>









definition deflate_data :: bytes where
  "deflate_data = [0xed, 0xce, 0x21, 0x01, 0x00, 0x00, 0x08, 0x03, 0x30, 0x7a, 0xd1, 0x8e, 0xd0, 0x58, 0x88, 0x71, 0x33, 0x31, 0xbf, 0xea, 0xd9, 0x4b, 0x2a, 0x01, 0x01, 0x01, 0x01, 0x01, 0x01, 0x01, 0x01, 0x01, 0x01, 0x01, 0x01, 0x01, 0x01, 0x81, 0x74, 0xe0, 0x01, 0x27, 0xf4, 0xc8, 0x97]"







section \<open>The ICO container\<close>

text \<open>
  C1 (as stated, refuted). The claim says that the colour-planes field and the
  bits-per-pixel field of the directory entry are both 0. The entry is packed from
  \<^verbatim>\<open>w, h, 0, 0, 1, 32, len(img), 22\<close>: the two zero bytes are the colour count and the
  reserved byte, and the 16-bit fields at offsets 4 and 6 of the entry (10 and 12 of the
  file) hold 1 and 32.
\<close>

theorem dir_entry_planes_bpp_not_zero:
  "read_le 10 2 ico_data = Some 1 \<and> read_le 12 2 ico_data = Some 32 \<and>
   \<not> (read_le 10 2 ico_data = Some 0 \<and> read_le 12 2 ico_data = Some 0)"
  by (simp add: ico_read_simps)

text \<open>
  C1 (amended). In the directory entry the colour-count byte and the reserved byte are 0,
  the colour-planes field is 1 and the bits-per-pixel field is 32, the same values as the
  planes and bit-count fields of the DIB header.
\<close>

theorem dir_entry_planes_bpp:
  "d = Inr [16, 16, 0, 0, 1, 0, 32, 0, 0x68, 0x04, 0, 0, 22, 0, 0, 0] \<and>
   read_le 8 1 ico_data = Some 0 \<and> read_le 9 1 ico_data = Some 0 \<and>
   read_le 10 2 ico_data = Some 1 \<and> read_le 12 2 ico_data = Some 32 \<and>
   read_le 10 2 ico_data = read_le 12 2 info \<and> read_le 12 2 ico_data = read_le 14 2 info"
  by (simp add: d_val info_val ico_read_simps)

text \<open>
  C2. The bytes written to icon.ico are the 6-byte header, the 16-byte directory entry,
  the 40-byte DIB header, the 1024-byte pixel array and the 64-byte mask, 1150 bytes in
  all; the size field of the entry is 1128 = 40 + 1024 + 64, the length of the image
  block, and its offset field is 22 = 6 + 16. After a run that finishes, icon.ico holds
  exactly these bytes.
\<close>

theorem ico_layout_and_size:
  "data_length ico_data = Some 1150 \<and>
   data_length hdr = Some 6 \<and> data_length d = Some 16 \<and> data_length info = Some 40 \<and>
   length px = 1024 \<and> length mask_bytes = 64 \<and>
   read_bytes 0 6 ico_data = read_bytes 0 6 hdr \<and>
   read_bytes 6 16 ico_data = read_bytes 0 16 d \<and>
   read_bytes 22 40 ico_data = read_bytes 0 40 info \<and>
   read_bytes 62 1024 ico_data = Some px \<and>
   read_bytes 1086 64 ico_data = Some mask_bytes \<and>
   data_length img = Some 1128 \<and> 40 + 1024 + 64 = (1128::nat) \<and>
   read_le 14 4 ico_data = Some 1128 \<and>
   read_le 18 4 ico_data = Some 22 \<and>
   (\<forall>zc e wd wd'. main zc e wd = Finished wd' \<longrightarrow>
      (\<exists>f. files wd' (ico_path e) = Some f \<and> ico_data = Inr f \<and> length f = 1150))"
proof -
  have "\<exists>f. files wd' (ico_path e) = Some f \<and> ico_data = Inr f \<and> length f = 1150"
    if "main zc e wd = Finished wd'" for zc e wd wd'
    using main_files(1) [OF that] by (simp add: ico_data_val length_px length_mask)
  then show ?thesis
    by (simp add: hdr_val d_val info_val img_val ico_read_simps)
qed

theorem ico_layout_and_size_witness:
  "\<exists>wd' f. main stored_compress demo_env empty_world = Finished wd' \<and>
     files wd' (ico_path demo_env) = Some f \<and> ico_data = Inr f \<and> length f = 1150"
proof -
  obtain wd' where run: "main stored_compress demo_env empty_world = Finished wd'"
    using demo_writable stored_raw_fits by (simp add: main_Finished_iff [OF ico_data_val])
  have "\<forall>zc e wd wd'. main zc e wd = Finished wd' \<longrightarrow>
      (\<exists>f. files wd' (ico_path e) = Some f \<and> ico_data = Inr f \<and> length f = 1150)"
    using ico_layout_and_size by blast
  with run show ?thesis by blast
qed

text \<open>
  C3. The file header is reserved = 0, type = 1, count = 1, each a little-endian 16-bit
  field, and the directory entry starts with the single bytes width = 16 and height = 16.
\<close>

theorem ico_header_fields:
  "hdr = Inr [0, 0, 1, 0, 1, 0] \<and>
   read_bytes 0 6 ico_data = Some [0, 0, 1, 0, 1, 0] \<and>
   read_le 0 2 ico_data = Some 0 \<and> read_le 2 2 ico_data = Some 1 \<and>
   read_le 4 2 ico_data = Some 1 \<and>
   read_le 6 1 ico_data = Some 16 \<and> read_le 7 1 ico_data = Some 16"
  by (simp add: hdr_val ico_read_simps)

text \<open>
  C4. The DIB header is 40 bytes, little-endian: header size 40, width 16, height 32
  (twice 16), planes 1, bit count 32, compression 0, and the five fields after it 0. It
  is the part of the file at offset 22.
\<close>

theorem dib_header_fields:
  "data_length info = Some 40 \<and>
   read_le 0 4 info = Some 40 \<and> read_le 4 4 info = Some 16 \<and>
   read_le 8 4 info = Some 32 \<and> nat (h * 2) = 32 \<and>
   read_le 12 2 info = Some 1 \<and> read_le 14 2 info = Some 32 \<and>
   read_le 16 4 info = Some 0 \<and>
   read_le 20 4 info = Some 0 \<and> read_le 24 4 info = Some 0 \<and> read_le 28 4 info = Some 0 \<and>
   read_le 32 4 info = Some 0 \<and> read_le 36 4 info = Some 0 \<and>
   read_bytes 22 40 ico_data = read_bytes 0 40 info"
  by (simp add: info_val h_def ico_read_simps)

text \<open>
  C5. The pixel array is the 4 bytes f6 82 3b ff repeated 256 times with nothing between
  them, so that each of its 256 pixels is these 4 bytes, and the mask is 64 = 16 * 4
  zero bytes; the two are the parts of the file at offsets 62 and 1086.
\<close>

theorem ico_pixels_and_mask:
  "px = concat (replicate 256 [0xf6, 0x82, 0x3b, 0xff]) \<and> length px = 256 * 4 \<and>
   (\<forall>i<256. ico_pixel i = [0xf6, 0x82, 0x3b, 0xff]) \<and>
   mask_bytes = replicate 64 0 \<and> length mask_bytes = nat h * 4 \<and> nat h * 4 = 64 \<and>
   read_bytes 62 1024 ico_data = Some px \<and>
   read_bytes (62 + 1024) 64 ico_data = Some mask_bytes"
  using px_val mask_val ico_pixel_val
  by (simp add: h_def ico_read_simps)

theorem ico_pixels_and_mask_witness:
  "(255::nat) < 256 \<and> ico_pixel 255 = [0xf6, 0x82, 0x3b, 0xff] \<and>
   bytes_at 1020 4 px = [0xf6, 0x82, 0x3b, 0xff]"
proof -
  have "\<forall>i<256. ico_pixel i = [0xf6, 0x82, 0x3b, 0xff]"
    using ico_pixels_and_mask by blast
  then have "ico_pixel 255 = [0xf6, 0x82, 0x3b, 0xff]" by simp
  then show ?thesis by (simp add: ico_pixel_def)
qed

section \<open>The PNG header payload and the two fill colours\<close>

text \<open>
  C7. The IHDR payload is 13 bytes: width 32 and height 32, each 4 bytes big-endian, then
  bit depth 8, colour type 6, compression 0, filter 0, interlace 0.
\<close>

theorem ihdr_payload:
  "ihdr_data = Inr [0, 0, 0, 32, 0, 0, 0, 32, 8, 6, 0, 0, 0] \<and>
   data_length ihdr_data = Some 13 \<and>
   read_be 0 4 ihdr_data = Some 32 \<and> read_be 4 4 ihdr_data = Some 32 \<and>
   read_be 8 1 ihdr_data = Some 8 \<and> read_be 9 1 ihdr_data = Some 6 \<and>
   read_be 10 1 ihdr_data = Some 0 \<and> read_be 11 1 ihdr_data = Some 0 \<and>
   read_be 12 1 ihdr_data = Some 0"
  by (simp add: ihdr_val read_be_def be_uint_def data_length_def bytes_at_def)

text \<open>
  C10. Every pixel of the ICO pixel array is f6 82 3b ff and every pixel of the PNG
  scanlines is 3b 82 f6 ff: the first three bytes of one are the first three of the
  other reversed (BGR against RGB) and the fourth byte, alpha, is the same.
\<close>

theorem same_fill_colour:
  "i < 256 \<Longrightarrow> r < 32 \<Longrightarrow> c < 32 \<Longrightarrow>
     ico_pixel i = [0xf6, 0x82, 0x3b, 0xff] \<and>
     png_pixel r c = [0x3b, 0x82, 0xf6, 0xff] \<and>
     rev (take 3 (ico_pixel i)) = take 3 (png_pixel r c) \<and>
     drop 3 (ico_pixel i) = drop 3 (png_pixel r c)"
  by (simp add: ico_pixel_val png_pixel_val)

theorem same_fill_colour_witness:
  "(255::nat) < 256 \<and> (31::nat) < 32 \<and>
   ico_pixel 255 = [0xf6, 0x82, 0x3b, 0xff] \<and>
   png_pixel 31 31 = [0x3b, 0x82, 0xf6, 0xff] \<and>
   rev (take 3 (ico_pixel 255)) = take 3 (png_pixel 31 31) \<and>
   drop 3 (ico_pixel 255) = drop 3 (png_pixel 31 31)"
  using same_fill_colour [of 255 31 31] by simp

section \<open>The PNG container\<close>

text \<open>
  C6. When both files can be opened and the compressed data is shorter than \<open>2 ^ 32\<close>
  bytes, the run finishes and icon.png holds the signature 89 50 4E 47 0D 0A 1A 0A
  followed by exactly the chunks IHDR, IDAT, IEND in this order. \<open>png_chunk\<close> builds a
  chunk as the big-endian 4-byte length of the payload, the tag, the payload and the
  big-endian 4-byte CRC-32 of tag and payload, and a reader of the chunk stream, which
  accepts a chunk only when its checksum field is the CRC-32 of its tag and payload,
  finds the three chunks and nothing else.
\<close>

theorem png_chunk_stream:
  assumes "writable e (ico_path e)" and "writable e (png_path e)"
    and "length (zc raw) < 2 ^ 32"
  shows "\<exists>wd' f. main zc e wd = Finished wd' \<and> files wd' (png_path e) = Some f \<and>
     f = [0x89, 0x50, 0x4e, 0x47, 0x0d, 0x0a, 0x1a, 0x0a] @
         [0, 0, 0, 13, 0x49, 0x48, 0x44, 0x52, 0, 0, 0, 32, 0, 0, 0, 32, 8, 6, 0, 0, 0,
          0x73, 0x7a, 0x7a, 0xf4] @
         (be32 (length (zc raw)) @ [0x49, 0x44, 0x41, 0x54] @ zc raw @
          be32 (nat (zlib_crc32 ([0x49, 0x44, 0x41, 0x54] @ zc raw)))) @
         [0, 0, 0, 0, 0x49, 0x45, 0x4e, 0x44, 0xae, 0x42, 0x60, 0x82] \<and>
     bytes_at 0 8 f = png_signature \<and>
     (\<forall>ty data. length data < 2 ^ 32 \<longrightarrow>
        png_chunk ty data =
          Inr (be32 (length data) @ ty @ data @ be32 (nat (zlib_crc32 (ty @ data))))) \<and>
     parse_chunks (drop 8 f) =
       Some [(b_ascii ''IHDR'', [0, 0, 0, 32, 0, 0, 0, 32, 8, 6, 0, 0, 0],
                nat (zlib_crc32 (b_ascii ''IHDR'' @ [0, 0, 0, 32, 0, 0, 0, 32, 8, 6, 0, 0, 0]))),
             (b_ascii ''IDAT'', zc raw, nat (zlib_crc32 (b_ascii ''IDAT'' @ zc raw))),
             (b_ascii ''IEND'', [], nat (zlib_crc32 (b_ascii ''IEND'' @ [])))]"
proof -
  let ?wd' = "wd\<lparr>files := (files wd)(ico_path e \<mapsto>
      [0,0, 1,0, 1,0] @ [16, 16, 0, 0, 1,0, 32,0, 0x68,0x04,0,0, 22,0,0,0]
        @ [40,0,0,0, 16,0,0,0, 32,0,0,0, 1,0, 32,0, 0,0,0,0, 0,0,0,0,
           0,0,0,0, 0,0,0,0, 0,0,0,0, 0,0,0,0] @ px @ mask_bytes,
      png_path e \<mapsto> spec_png (zc raw)),
      stdout := stdout wd @ [''Created '' @ ico_path e, ''Created '' @ png_path e, ''Done!'']\<rparr>"
  have fin: "main zc e wd = Finished ?wd'"
    using assms by (simp add: main_Finished_iff [OF ico_data_val])
  have content: "files ?wd' (png_path e) = Some (spec_png (zc raw))" by simp
  have c1: "spec_chunk [0x49, 0x48, 0x44, 0x52] [0, 0, 0, 32, 0, 0, 0, 32, 8, 6, 0, 0, 0] =
      [0, 0, 0, 13, 0x49, 0x48, 0x44, 0x52, 0, 0, 0, 32, 0, 0, 0, 32, 8, 6, 0, 0, 0,
       0x73, 0x7a, 0x7a, 0xf4]"
    using ihdr_chunk_val png_chunk_val [of "[0, 0, 0, 32, 0, 0, 0, 32, 8, 6, 0, 0, 0]" "b_ascii ''IHDR''"]
    by (simp add: ascii_tags)
  have c3: "spec_chunk [0x49, 0x45, 0x4e, 0x44] [] =
      [0, 0, 0, 0, 0x49, 0x45, 0x4e, 0x44, 0xae, 0x42, 0x60, 0x82]"
    using iend_chunk_val png_chunk_val [of "[]" "b_ascii ''IEND''"]
    by (simp add: ascii_tags)
  have bytes: "spec_png (zc raw) = [0x89, 0x50, 0x4e, 0x47, 0x0d, 0x0a, 0x1a, 0x0a] @
         [0, 0, 0, 13, 0x49, 0x48, 0x44, 0x52, 0, 0, 0, 32, 0, 0, 0, 32, 8, 6, 0, 0, 0,
          0x73, 0x7a, 0x7a, 0xf4] @
         (be32 (length (zc raw)) @ [0x49, 0x44, 0x41, 0x54] @ zc raw @
          be32 (nat (zlib_crc32 ([0x49, 0x44, 0x41, 0x54] @ zc raw)))) @
         [0, 0, 0, 0, 0x49, 0x45, 0x4e, 0x44, 0xae, 0x42, 0x60, 0x82]"
    unfolding spec_png_def c1 c3 by (simp add: spec_chunk_def)
  have sig: "bytes_at 0 8 (spec_png (zc raw)) = png_signature"
    by (simp add: spec_png_def bytes_at_def png_signature_val)
  have chunk: "\<forall>ty data. length data < 2 ^ 32 \<longrightarrow>
        png_chunk ty data =
          Inr (be32 (length data) @ ty @ data @ be32 (nat (zlib_crc32 (ty @ data))))"
    using png_chunk_val by (simp add: spec_chunk_def)
  have "drop 8 (spec_png (zc raw)) =
      spec_chunk (b_ascii ''IHDR'') [0, 0, 0, 32, 0, 0, 0, 32, 8, 6, 0, 0, 0] @
      spec_chunk (b_ascii ''IDAT'') (zc raw) @ spec_chunk (b_ascii ''IEND'') []"
    by (simp add: spec_png_def ascii_tags)
  then have parse: "parse_chunks (drop 8 (spec_png (zc raw))) =
       Some [(b_ascii ''IHDR'', [0, 0, 0, 32, 0, 0, 0, 32, 8, 6, 0, 0, 0],
                nat (zlib_crc32 (b_ascii ''IHDR'' @ [0, 0, 0, 32, 0, 0, 0, 32, 8, 6, 0, 0, 0]))),
             (b_ascii ''IDAT'', zc raw, nat (zlib_crc32 (b_ascii ''IDAT'' @ zc raw))),
             (b_ascii ''IEND'', [], nat (zlib_crc32 (b_ascii ''IEND'' @ [])))]"
    using parse_three_chunks [OF length_tags, of "[0, 0, 0, 32, 0, 0, 0, 32, 8, 6, 0, 0, 0]"
        "zc raw" "[]"] assms(3)
    by simp
  from fin content bytes sig chunk parse show ?thesis by metis
qed

theorem png_chunk_stream_witness:
  "writable demo_env (ico_path demo_env) \<and> writable demo_env (png_path demo_env) \<and>
   length (stored_compress raw) < 2 ^ 32 \<and>
   (\<exists>wd' f. main stored_compress demo_env empty_world = Finished wd' \<and>
      files wd' (png_path demo_env) = Some f \<and>
      bytes_at 0 8 f = png_signature \<and>
      png_chunk (b_ascii ''IDAT'') (stored_compress raw) =
        Inr (be32 (length (stored_compress raw)) @ b_ascii ''IDAT'' @ stored_compress raw @
             be32 (nat (zlib_crc32 (b_ascii ''IDAT'' @ stored_compress raw)))) \<and>
      parse_chunks (drop 8 f) =
        Some [(b_ascii ''IHDR'', [0, 0, 0, 32, 0, 0, 0, 32, 8, 6, 0, 0, 0],
                 nat (zlib_crc32 (b_ascii ''IHDR'' @ [0, 0, 0, 32, 0, 0, 0, 32, 8, 6, 0, 0, 0]))),
              (b_ascii ''IDAT'', stored_compress raw,
                 nat (zlib_crc32 (b_ascii ''IDAT'' @ stored_compress raw))),
              (b_ascii ''IEND'', [], nat (zlib_crc32 (b_ascii ''IEND'' @ [])))])"
proof -
  obtain wd' f where "main stored_compress demo_env empty_world = Finished wd'"
    "files wd' (png_path demo_env) = Some f"
    "bytes_at 0 8 f = png_signature"
    "\<forall>ty data. length data < 2 ^ 32 \<longrightarrow>
        png_chunk ty data =
          Inr (be32 (length data) @ ty @ data @ be32 (nat (zlib_crc32 (ty @ data))))"
    "parse_chunks (drop 8 f) =
        Some [(b_ascii ''IHDR'', [0, 0, 0, 32, 0, 0, 0, 32, 8, 6, 0, 0, 0],
                 nat (zlib_crc32 (b_ascii ''IHDR'' @ [0, 0, 0, 32, 0, 0, 0, 32, 8, 6, 0, 0, 0]))),
              (b_ascii ''IDAT'', stored_compress raw,
                 nat (zlib_crc32 (b_ascii ''IDAT'' @ stored_compress raw))),
              (b_ascii ''IEND'', [], nat (zlib_crc32 (b_ascii ''IEND'' @ [])))]"
    using png_chunk_stream [where e = demo_env and zc = stored_compress and wd = empty_world,
      OF demo_writable(1) demo_writable(2) stored_raw_fits]
    by blast
  moreover from this(4) stored_raw_fits have
    "png_chunk (b_ascii ''IDAT'') (stored_compress raw) =
        Inr (be32 (length (stored_compress raw)) @ b_ascii ''IDAT'' @ stored_compress raw @
             be32 (nat (zlib_crc32 (b_ascii ''IDAT'' @ stored_compress raw))))"
    by blast
  ultimately show ?thesis
    using demo_writable stored_raw_fits by blast
qed



section \<open>Two runs\<close>

text \<open>
  C9. Any two runs that finish, from whatever directory and over whatever files were
  there before, leave the same bytes in icon.ico and the same bytes in icon.png. The
  script has no input; the compressor is a function of its argument.
\<close>

theorem runs_write_identical_files:
  assumes "main zc e1 wd1 = Finished wd1'" and "main zc e2 wd2 = Finished wd2'"
  shows "files wd1' (ico_path e1) = files wd2' (ico_path e2) \<and>
         files wd1' (png_path e1) = files wd2' (png_path e2) \<and>
         files wd1' (ico_path e1) \<noteq> None \<and> files wd1' (png_path e1) \<noteq> None"
  using main_files [OF assms(1)] main_files [OF assms(2)] by simp

theorem runs_write_identical_files_witness:
  "\<exists>wa wb. main stored_compress demo_env empty_world = Finished wa \<and>
     main stored_compress (demo_env\<lparr>dir_path := ''/tmp/out''\<rparr>) wa = Finished wb \<and>
     files wa (ico_path demo_env) = files wb (ico_path (demo_env\<lparr>dir_path := ''/tmp/out''\<rparr>)) \<and>
     files wa (png_path demo_env) = files wb (png_path (demo_env\<lparr>dir_path := ''/tmp/out''\<rparr>)) \<and>
     files wa (ico_path demo_env) \<noteq> None \<and> files wa (png_path demo_env) \<noteq> None"
proof -
  let ?e2 = "demo_env\<lparr>dir_path := ''/tmp/out''\<rparr>"
  obtain wa where a: "main stored_compress demo_env empty_world = Finished wa"
    using demo_writable stored_raw_fits by (simp add: main_Finished_iff [OF ico_data_val])
  have "writable ?e2 (ico_path ?e2)" "writable ?e2 (png_path ?e2)"
    by (simp_all add: demo_env_def)
  then obtain wb where b: "main stored_compress ?e2 wa = Finished wb"
    using stored_raw_fits by (simp add: main_Finished_iff [OF ico_data_val])
  from runs_write_identical_files [OF a b] a b show ?thesis by blast
qed

end
